theory Spec2Isabelle
  imports Main "HOL-Library.Word" "HOL-Library.Sublist"
begin

section \<open>Go strings and the library functions the adapter calls\<close>

text \<open>
  A Go \<^verbatim>\<open>string\<close> is a sequence of bytes; \<^typ>\<open>string\<close> (a list of 8-bit
  characters) models it, \<^const>\<open>length\<close> is Go's \<^verbatim>\<open>len\<close>.
\<close>

text \<open>
  \<^verbatim>\<open>s[:n]\<close>: the first \<open>n\<close> bytes; the Go runtime panics (slice bounds out of range)
  when \<open>n\<close> exceeds \<^verbatim>\<open>len(s)\<close>. \<open>None\<close> is that panic.
\<close>

definition slice_to :: "string \<Rightarrow> nat \<Rightarrow> string option" where
  "slice_to s n = (if n \<le> length s then Some (take n s) else None)"

text \<open>
  \<^verbatim>\<open>strings.ToLower\<close> on ASCII bytes: \<open>A\<close>..\<open>Z\<close> move to \<open>a\<close>..\<open>z\<close>, every
  other ASCII byte stays. The adapter only compares the result with the ASCII words
  \<^verbatim>\<open>"s"\<close> and \<^verbatim>\<open>"select"\<close>; outside ASCII Go lowers whole runes, and no rune
  outside ASCII lowers to one of the letters of \<^verbatim>\<open>select\<close>, so on such bytes the
  comparison is false in Go and in this model alike.
\<close>

definition lowerByte :: "char \<Rightarrow> char" where
  "lowerByte c =
     (case map_of (zip ''ABCDEFGHIJKLMNOPQRSTUVWXYZ'' ''abcdefghijklmnopqrstuvwxyz'') c of
        None \<Rightarrow> c
      | Some l \<Rightarrow> l)"

definition ToLower :: "string \<Rightarrow> string" where
  "ToLower s = map lowerByte s"

text \<open>
  \<^verbatim>\<open>strings.TrimSpace\<close> removes leading and trailing white space as Unicode defines
  it (\<^verbatim>\<open>unicode.IsSpace\<close>). On the bytes of a Go string these are the UTF-8 encodings
  below: the six ASCII ones, U+0085, U+00A0, U+1680, U+2000..U+200A, U+2028, U+2029,
  U+202F, U+205F and U+3000.
\<close>

definition spaceRunes :: "string list" where
  "spaceRunes =
     [[CHR 0x09], [CHR 0x0A], [CHR 0x0B], [CHR 0x0C], [CHR 0x0D], [CHR 0x20],
      [CHR 0xC2, CHR 0x85], [CHR 0xC2, CHR 0xA0],
      [CHR 0xE1, CHR 0x9A, CHR 0x80],
      [CHR 0xE2, CHR 0x80, CHR 0x80], [CHR 0xE2, CHR 0x80, CHR 0x81],
      [CHR 0xE2, CHR 0x80, CHR 0x82], [CHR 0xE2, CHR 0x80, CHR 0x83],
      [CHR 0xE2, CHR 0x80, CHR 0x84], [CHR 0xE2, CHR 0x80, CHR 0x85],
      [CHR 0xE2, CHR 0x80, CHR 0x86], [CHR 0xE2, CHR 0x80, CHR 0x87],
      [CHR 0xE2, CHR 0x80, CHR 0x88], [CHR 0xE2, CHR 0x80, CHR 0x89],
      [CHR 0xE2, CHR 0x80, CHR 0x8A],
      [CHR 0xE2, CHR 0x80, CHR 0xA8], [CHR 0xE2, CHR 0x80, CHR 0xA9],
      [CHR 0xE2, CHR 0x80, CHR 0xAF],
      [CHR 0xE2, CHR 0x81, CHR 0x9F],
      [CHR 0xE3, CHR 0x80, CHR 0x80]]"

text \<open>The width in bytes of the white-space rune a string starts (ends) with, 0 if none.\<close>

definition leadingSpace :: "string \<Rightarrow> nat" where
  "leadingSpace s = (case find (\<lambda>w. prefix w s) spaceRunes of None \<Rightarrow> 0 | Some w \<Rightarrow> length w)"

definition trailingSpace :: "string \<Rightarrow> nat" where
  "trailingSpace s = (case find (\<lambda>w. suffix w s) spaceRunes of None \<Rightarrow> 0 | Some w \<Rightarrow> length w)"

lemma leadingSpace_le: "leadingSpace s \<le> length s"
  by (auto simp: leadingSpace_def prefix_def split: option.splits dest!: find_Some_iff [THEN iffD1])

lemma trailingSpace_le: "trailingSpace s \<le> length s"
  by (auto simp: trailingSpace_def suffix_def split: option.splits dest!: find_Some_iff [THEN iffD1])

function TrimLeftSpace :: "string \<Rightarrow> string" where
  "TrimLeftSpace s =
     (if leadingSpace s = 0 then s else TrimLeftSpace (drop (leadingSpace s) s))"
  by pat_completeness auto
termination
proof (relation "measure length")
  show "wf (measure length)" by simp
next
  fix s :: string
  assume "leadingSpace s \<noteq> 0"
  moreover have "leadingSpace s \<le> length s" by (rule leadingSpace_le)
  ultimately show "(drop (leadingSpace s) s, s) \<in> measure length" by simp
qed

function TrimRightSpace :: "string \<Rightarrow> string" where
  "TrimRightSpace s =
     (if trailingSpace s = 0 then s
      else TrimRightSpace (take (length s - trailingSpace s) s))"
  by pat_completeness auto
termination
proof (relation "measure length")
  show "wf (measure length)" by simp
next
  fix s :: string
  assume "trailingSpace s \<noteq> 0"
  moreover have "trailingSpace s \<le> length s" by (rule trailingSpace_le)
  ultimately show "(take (length s - trailingSpace s) s, s) \<in> measure length" by simp
qed

declare TrimLeftSpace.simps [simp del] TrimRightSpace.simps [simp del]

definition TrimSpace :: "string \<Rightarrow> string" where
  "TrimSpace s = TrimRightSpace (TrimLeftSpace s)"

text \<open>\<^verbatim>\<open>strings.TrimPrefix\<close>: the string without the prefix, or unchanged.\<close>

definition TrimPrefix :: "string \<Rightarrow> string \<Rightarrow> string" where
  "TrimPrefix s p = (if prefix p s then drop (length p) s else s)"

section \<open>The regular expression of convertQuery\<close>

text \<open>
  \<^verbatim>\<open>NewAdapter\<close> is the only place an \<^verbatim>\<open>Adapter\<close> is built, and it sets
  \<^verbatim>\<open>pqPrefix: "?"\<close>.
\<close>

definition pqPrefix :: string where
  "pqPrefix = ''?''"

text \<open>The class \<^verbatim>\<open>\w\<close> of Go's regexp syntax: \<^verbatim>\<open>[0-9A-Za-z_]\<close>.\<close>

definition wordChar :: "char \<Rightarrow> bool" where
  "wordChar c \<longleftrightarrow>
     c \<in> set ''0123456789ABCDEFGHIJKLMNOPQRSTUVWXYZ_abcdefghijklmnopqrstuvwxyz''"

text \<open>
  \<^verbatim>\<open>exp := regexp.MustCompile(`\` + a.pqPrefix + `\w+`)\<close>, that is \<^verbatim>\<open>\?\w+\<close>: the
  literal prefix, then one or more word characters, as many as there are (the \<^verbatim>\<open>+\<close> is
  greedy). \<open>expMatch s\<close> is the length of the match that starts at the head of \<open>s\<close>.
\<close>

definition expMatch :: "string \<Rightarrow> nat option" where
  "expMatch s =
     (case s of
        c # d # r \<Rightarrow>
          if [c] = pqPrefix \<and> wordChar d
          then Some (Suc (length (takeWhile wordChar (d # r))))
          else None
      | _ \<Rightarrow> None)"

lemma expMatch_pos: "expMatch s = Some n \<Longrightarrow> 0 < n"
  by (auto simp: expMatch_def split: list.splits if_splits)

text \<open>
  \<^verbatim>\<open>exp.FindAllString(query, -1)\<close>: the successive non-overlapping matches, leftmost
  first. \<^verbatim>\<open>exp.ReplaceAllString(query, repl)\<close>: the text with each of these matches
  replaced (\<open>repl\<close> holds no \<^verbatim>\<open>$\<close>, so it is copied as it is).
\<close>

function FindAllString :: "string \<Rightarrow> string list" where
  "FindAllString [] = []"
| "FindAllString (c # cs) =
     (case expMatch (c # cs) of
        None \<Rightarrow> FindAllString cs
      | Some n \<Rightarrow> take n (c # cs) # FindAllString (drop n (c # cs)))"
  by pat_completeness auto
termination
  by (relation "measure length") (auto dest: expMatch_pos)

function ReplaceAllString :: "string \<Rightarrow> string \<Rightarrow> string" where
  "ReplaceAllString [] repl = []"
| "ReplaceAllString (c # cs) repl =
     (case expMatch (c # cs) of
        None \<Rightarrow> c # ReplaceAllString cs repl
      | Some n \<Rightarrow> repl @ ReplaceAllString (drop n (c # cs)) repl)"
  by pat_completeness auto
termination
  by (relation "measure (\<lambda>(s, repl). length s)") (auto dest: expMatch_pos)

declare FindAllString.simps [simp del] ReplaceAllString.simps [simp del]

section \<open>The query translator and the parameter binder\<close>

text \<open>
  \<^verbatim>\<open>convertQuery\<close>: trim the query, find the named parameters, strip the prefix from
  each, replace each by \<^verbatim>\<open>?\<close>.
\<close>

definition convertQuery :: "string \<Rightarrow> string \<times> string list" where
  "convertQuery query =
     (let query = TrimSpace query;
          namedParams = FindAllString query;
          namedParams = map (\<lambda>p. TrimPrefix p pqPrefix) namedParams;
          query = ReplaceAllString query ''?''
      in (query, namedParams))"

text \<open>
  The errors the adapter makes itself (\<^verbatim>\<open>fmt.Errorf\<close>), and the errors of
  \<^verbatim>\<open>database/sql\<close> and the driver, which the adapter hands on as they are.
\<close>

datatype error =
    ParameterMissing string
  | SelectNotAllowed
  | DriverError string

fun errorText :: "error \<Rightarrow> string" where
  "errorText (ParameterMissing param) =
     ''mysql-adapter: parameter '' @ [CHR 0x27] @ param @ [CHR 0x27] @ '' is missing''"
| "errorText SelectNotAllowed =
     ''mysql-adapter: select queries are not allowed. use Query() instead''"
| "errorText (DriverError msg) = msg"

text \<open>
  \<^verbatim>\<open>reorderParameters\<close>: the loop over \<^verbatim>\<open>namedParams\<close>, with the slice built so far.
  \<^verbatim>\<open>params\<close> is a Go map (a \<^verbatim>\<open>nil\<close> map has no key, as the empty one).
\<close>

fun reorderLoop :: "(string \<rightharpoonup> 'v) \<Rightarrow> string list \<Rightarrow> 'v list \<Rightarrow> error + 'v list" where
  "reorderLoop params [] reorderedParams = Inr reorderedParams"
| "reorderLoop params (param # rest) reorderedParams =
     (case params param of
        None \<Rightarrow> Inl (ParameterMissing param)
      | Some paramValue \<Rightarrow> reorderLoop params rest (reorderedParams @ [paramValue]))"

definition reorderParameters :: "(string \<rightharpoonup> 'v) \<Rightarrow> string list \<Rightarrow> error + 'v list" where
  "reorderParameters params namedParams = reorderLoop params namedParams []"

section \<open>The backend: database/sql seen from the adapter\<close>

text \<open>
  Go's \<^verbatim>\<open>int64\<close>: addition wraps around.
\<close>

type_synonym int64 = "64 word"

text \<open>
  \<^verbatim>\<open>interface{}\<close>: a parameter value, a column value, or one of the two \<^verbatim>\<open>int64\<close>
  counters of a result set. \<open>'v\<close> stands for every dynamic value that is not an
  \<^verbatim>\<open>int64\<close>.
\<close>

datatype 'v iface = Int64 int64 | Val 'v

type_synonym 'v row = "string \<rightharpoonup> 'v iface"

text \<open>\<^verbatim>\<open>*sql.Tx\<close> and \<^verbatim>\<open>*sql.Stmt\<close>: handles of the backend.\<close>

type_synonym txHandle = nat
type_synonym stmtHandle = nat

text \<open>
  \<^verbatim>\<open>sql.Result\<close>: each of its two methods returns a value and an error.
\<close>

record sqlResult =
  LastInsertId :: "int64 \<times> error option"
  RowsAffected :: "int64 \<times> error option"

text \<open>
  \<^verbatim>\<open>*sql.Rows\<close>: the column names, and for each row that \<^verbatim>\<open>rows.Next()\<close> announces
  what \<^verbatim>\<open>rows.Scan\<close> gives: an error or the values of the columns.
\<close>

record 'v sqlRows =
  Columns :: "string list"
  Scans :: "(error + 'v iface list) list"

text \<open>The calls the adapter makes on the pool, a transaction, a statement or a row cursor.\<close>

datatype 'v call =
    PoolBegin
  | TxCommit txHandle
  | TxRollback txHandle
  | Prepare "txHandle option" string
  | StmtQuery stmtHandle "'v iface list"
  | StmtExec stmtHandle "'v iface list"
  | StmtClose stmtHandle
  | RowsClose

text \<open>
  The state of the world is the list of the calls made so far. The backend is a
  parameter: what it answers to a call, given the calls before it. The answers of
  \<^verbatim>\<open>Commit\<close>, \<^verbatim>\<open>Rollback\<close> and \<^verbatim>\<open>Close\<close> are never read by the adapter.
\<close>

type_synonym 'v world = "'v call list"

record 'v backend =
  beginResult :: "'v world \<Rightarrow> error + txHandle"
  prepareResult :: "'v world \<Rightarrow> txHandle option \<Rightarrow> string \<Rightarrow> error + stmtHandle"
  queryResult :: "'v world \<Rightarrow> stmtHandle \<Rightarrow> 'v iface list \<Rightarrow> error + 'v sqlRows"
  execResult :: "'v world \<Rightarrow> stmtHandle \<Rightarrow> 'v iface list \<Rightarrow> error + sqlResult"

definition pool_Begin :: "'v backend \<Rightarrow> 'v world \<Rightarrow> (error + txHandle) \<times> 'v world" where
  "pool_Begin B w = (beginResult B w, w @ [PoolBegin])"

definition tx_Commit :: "txHandle \<Rightarrow> 'v world \<Rightarrow> 'v world" where
  "tx_Commit tx w = w @ [TxCommit tx]"

definition tx_Rollback :: "txHandle \<Rightarrow> 'v world \<Rightarrow> 'v world" where
  "tx_Rollback tx w = w @ [TxRollback tx]"

definition tx_Prepare ::
  "'v backend \<Rightarrow> txHandle \<Rightarrow> string \<Rightarrow> 'v world \<Rightarrow> (error + stmtHandle) \<times> 'v world" where
  "tx_Prepare B tx query w = (prepareResult B w (Some tx) query, w @ [Prepare (Some tx) query])"

definition pool_Prepare ::
  "'v backend \<Rightarrow> string \<Rightarrow> 'v world \<Rightarrow> (error + stmtHandle) \<times> 'v world" where
  "pool_Prepare B query w = (prepareResult B w None query, w @ [Prepare None query])"

definition stmt_Query ::
  "'v backend \<Rightarrow> stmtHandle \<Rightarrow> 'v iface list \<Rightarrow> 'v world \<Rightarrow> (error + 'v sqlRows) \<times> 'v world" where
  "stmt_Query B stmt args w = (queryResult B w stmt args, w @ [StmtQuery stmt args])"

definition stmt_Exec ::
  "'v backend \<Rightarrow> stmtHandle \<Rightarrow> 'v iface list \<Rightarrow> 'v world \<Rightarrow> (error + sqlResult) \<times> 'v world" where
  "stmt_Exec B stmt args w = (execResult B w stmt args, w @ [StmtExec stmt args])"

text \<open>\<^verbatim>\<open>defer stmt.Close()\<close>: the statement is closed on every way out, a panic included.\<close>

definition deferClose :: "stmtHandle \<Rightarrow> 'a \<times> 'v world \<Rightarrow> 'a \<times> 'v world" where
  "deferClose stmt rw = (fst rw, snd rw @ [StmtClose stmt])"

section \<open>The adapter\<close>

text \<open>
  \<^verbatim>\<open>context.Context\<close>: of its bindings the adapter reads and writes the one under
  \<^verbatim>\<open>internal.TxKey\<close>; \<open>txValue ctx\<close> is \<^verbatim>\<open>ctx.Value(internal.TxKey)\<close>, \<open>None\<close> for
  \<^verbatim>\<open>nil\<close>.
\<close>

record "context" =
  txValue :: "txHandle option"

text \<open>
  What a call of the adapter comes to: a run-time panic, \<^verbatim>\<open>(nil, err)\<close> or
  \<^verbatim>\<open>(res, nil)\<close>.
\<close>

datatype 'a outcome = Panic | Failure error | Success 'a

definition returned :: "error + 'a \<Rightarrow> 'a outcome" where
  "returned r = (case r of Inl err \<Rightarrow> Failure err | Inr res \<Rightarrow> Success res)"

definition prepareStatement ::
  "'v backend \<Rightarrow> context \<Rightarrow> string \<Rightarrow> 'v world \<Rightarrow> (error + stmtHandle) \<times> 'v world" where
  "prepareStatement B ctx query w =
     (case txValue ctx of
        Some tx \<Rightarrow> tx_Prepare B tx query w
      | None \<Rightarrow> pool_Prepare B query w)"

definition formatResultSet :: "int64 \<Rightarrow> int64 \<Rightarrow> 'v row list" where
  "formatResultSet id' aff =
     [Map.empty(''affected_rows'' \<mapsto> Int64 aff, ''last_insert_id'' \<mapsto> Int64 id')]"

definition prepareResultSet :: "sqlResult \<Rightarrow> error + 'v row list" where
  "prepareResultSet result =
     (case snd (LastInsertId result) of
        Some err \<Rightarrow> Inl err
      | None \<Rightarrow>
          (case snd (RowsAffected result) of
             Some err \<Rightarrow> Inl err
           | None \<Rightarrow> Inr (formatResultSet (fst (LastInsertId result)) (fst (RowsAffected result)))))"

text \<open>
  \<^verbatim>\<open>prepareDataSet\<close>: one map per scanned row, the value of column \<open>i\<close> stored under the
  name of column \<open>i\<close>; the first failing \<^verbatim>\<open>Scan\<close> ends the loop with its error. With
  no row the loop body never runs and \<^verbatim>\<open>data\<close> is returned as it was declared, empty.
\<close>

definition rowOf :: "string list \<Rightarrow> 'v iface list \<Rightarrow> 'v row" where
  "rowOf cols columns = fold (\<lambda>(colName, val) row. row(colName \<mapsto> val)) (zip cols columns) Map.empty"

fun scanLoop :: "string list \<Rightarrow> (error + 'v iface list) list \<Rightarrow> 'v row list \<Rightarrow> error + 'v row list" where
  "scanLoop cols [] data = Inr data"
| "scanLoop cols (Inl err # rest) data = Inl err"
| "scanLoop cols (Inr columns # rest) data = scanLoop cols rest (data @ [rowOf cols columns])"

definition prepareDataSet :: "'v sqlRows \<Rightarrow> 'v world \<Rightarrow> (error + 'v row list) \<times> 'v world" where
  "prepareDataSet rows w = (scanLoop (Columns rows) (Scans rows) [], w @ [RowsClose])"

text \<open>
  \<^verbatim>\<open>Query\<close>. The test for a select statement is
  \<^verbatim>\<open>strings.ToLower(convertedQuery[:1]) == "s"\<close>; the slice panics on the empty text.
\<close>

definition Query ::
  "'v backend \<Rightarrow> context \<Rightarrow> string \<Rightarrow> (string \<rightharpoonup> 'v iface) \<Rightarrow> 'v world \<Rightarrow>
     'v row list outcome \<times> 'v world" where
  "Query B ctx query params w =
     (case convertQuery query of (convertedQuery, placeholders) \<Rightarrow>
      (case reorderParameters params placeholders of
         Inl err \<Rightarrow> (Failure err, w)
       | Inr reorderedParams \<Rightarrow>
           (case prepareStatement B ctx convertedQuery w of
              (Inl err, w1) \<Rightarrow> (Failure err, w1)
            | (Inr stmt, w1) \<Rightarrow>
                deferClose stmt
                  (case slice_to convertedQuery 1 of
                     None \<Rightarrow> (Panic, w1)
                   | Some head \<Rightarrow>
                       if ToLower head = ''s''
                       then (case stmt_Query B stmt reorderedParams w1 of
                               (Inl err, w2) \<Rightarrow> (Failure err, w2)
                             | (Inr rows, w2) \<Rightarrow>
                                 (case prepareDataSet rows w2 of (r, w3) \<Rightarrow> (returned r, w3)))
                       else (case stmt_Exec B stmt reorderedParams w1 of
                               (Inl err, w2) \<Rightarrow> (Failure err, w2)
                             | (Inr result, w2) \<Rightarrow> (returned (prepareResultSet result), w2))))))"

text \<open>
  \<^verbatim>\<open>QueryBulk\<close>. The test for a select statement is
  \<^verbatim>\<open>strings.ToLower(convertedQuery[:6]) == "select"\<close>, made before the statement is
  prepared; the slice panics on a text of fewer than six bytes. \<open>bulkLoop\<close> is the loop
  over \<^verbatim>\<open>params\<close> with the variables \<^verbatim>\<open>lastID\<close> and \<^verbatim>\<open>affRows\<close>; the errors of
  \<^verbatim>\<open>LastInsertId\<close> and \<^verbatim>\<open>RowsAffected\<close> are dropped there.
\<close>

fun bulkLoop ::
  "'v backend \<Rightarrow> stmtHandle \<Rightarrow> string list \<Rightarrow> (string \<rightharpoonup> 'v iface) list \<Rightarrow> int64 \<Rightarrow> int64 \<Rightarrow>
     'v world \<Rightarrow> (error + int64 \<times> int64) \<times> 'v world" where
  "bulkLoop B stmt placeholders [] lastID affRows w = (Inr (lastID, affRows), w)"
| "bulkLoop B stmt placeholders (pms # rest) lastID affRows w =
     (case reorderParameters pms placeholders of
        Inl err \<Rightarrow> (Inl err, w)
      | Inr reorderedParams \<Rightarrow>
          (case stmt_Exec B stmt reorderedParams w of
             (Inl err, w1) \<Rightarrow> (Inl err, w1)
           | (Inr result, w1) \<Rightarrow>
               bulkLoop B stmt placeholders rest
                 (fst (LastInsertId result)) (affRows + fst (RowsAffected result)) w1))"

definition QueryBulk ::
  "'v backend \<Rightarrow> context \<Rightarrow> string \<Rightarrow> (string \<rightharpoonup> 'v iface) list \<Rightarrow> 'v world \<Rightarrow>
     'v row list outcome \<times> 'v world" where
  "QueryBulk B ctx query params w =
     (case convertQuery query of (convertedQuery, placeholders) \<Rightarrow>
      (case slice_to convertedQuery 6 of
         None \<Rightarrow> (Panic, w)
       | Some head \<Rightarrow>
           if ToLower head = ''select'' then (Failure SelectNotAllowed, w)
           else (case prepareStatement B ctx convertedQuery w of
                   (Inl err, w1) \<Rightarrow> (Failure err, w1)
                 | (Inr stmt, w1) \<Rightarrow>
                     deferClose stmt
                       (case bulkLoop B stmt placeholders params 0 0 w1 of
                          (Inl err, w2) \<Rightarrow> (Failure err, w2)
                        | (Inr (lastID, affRows), w2) \<Rightarrow>
                            (Success (formatResultSet lastID affRows), w2)))))"

text \<open>
  \<^verbatim>\<open>attachTx\<close> and \<^verbatim>\<open>WrapInTx\<close>. A unit of work \<^verbatim>\<open>fn\<close> is Go code: it takes the
  context, may call the backend, and returns, fails or panics. \<^verbatim>\<open>WrapInTx\<close> has no
  \<^verbatim>\<open>recover\<close>: a panic of \<^verbatim>\<open>fn\<close> passes through it, and neither \<^verbatim>\<open>Commit\<close> nor
  \<^verbatim>\<open>Rollback\<close> is reached. The type assertion \<^verbatim>\<open>.(*sql.Tx)\<close> panics on \<^verbatim>\<open>nil\<close>.
\<close>

definition attachTx :: "'v backend \<Rightarrow> context \<Rightarrow> 'v world \<Rightarrow> (error + context) \<times> 'v world" where
  "attachTx B ctx w =
     (case txValue ctx of
        Some tx \<Rightarrow> (Inr ctx, w)
      | None \<Rightarrow>
          (case pool_Begin B w of
             (Inl err, w1) \<Rightarrow> (Inl err, w1)
           | (Inr tx, w1) \<Rightarrow> (Inr (ctx\<lparr>txValue := Some tx\<rparr>), w1)))"

definition WrapInTx ::
  "'v backend \<Rightarrow> context \<Rightarrow> (context \<Rightarrow> 'v world \<Rightarrow> 'r outcome \<times> 'v world) \<Rightarrow> 'v world \<Rightarrow>
     'r outcome \<times> 'v world" where
  "WrapInTx B ctx fn w =
     (case attachTx B ctx w of
        (Inl err, w1) \<Rightarrow> (Failure err, w1)
      | (Inr ctx1, w1) \<Rightarrow>
          (case txValue ctx1 of
             None \<Rightarrow> (Panic, w1)
           | Some tx \<Rightarrow>
               (case fn ctx1 w1 of
                  (Panic, w2) \<Rightarrow> (Panic, w2)
                | (Failure err, w2) \<Rightarrow> (Failure err, tx_Rollback tx w2)
                | (Success res, w2) \<Rightarrow> (Success res, tx_Commit tx w2))))"

text \<open>
  A backend to run the model on: the sample table of the repository's tests. Transactions
  and statements are numbered by the position of the call that made them; a statement
  whose text is not SQL fails when it is prepared; every execution affects one row and
  the generated identifier is the number of executions so far.
\<close>

definition sampleBackend :: "unit backend" where
  "sampleBackend =
     \<lparr> beginResult = (\<lambda>w. Inr (length w)),
       prepareResult = (\<lambda>w tx query.
          if query = ''not sql'' then Inl (DriverError ''Error 1064'') else Inr (length w)),
       queryResult = (\<lambda>w stmt args. Inr \<lparr> Columns = [''id''], Scans = [] \<rparr>),
       execResult = (\<lambda>w stmt args.
          Inr \<lparr> LastInsertId =
                  (of_nat (Suc (length (filter
                     (\<lambda>c. case c of StmtExec s a \<Rightarrow> True | _ \<Rightarrow> False) w))), None),
                RowsAffected = (1, None) \<rparr>) \<rparr>"

text \<open>The sample backend with a pool that cannot begin a transaction.\<close>

definition downBackend :: "unit backend" where
  "downBackend = sampleBackend\<lparr>beginResult := (\<lambda>w. Inl (DriverError ''connection refused''))\<rparr>"

text \<open>
  The sample backend without the table a statement names: nothing can be prepared. And
  the sample backend with executions that each report \<open>2 ^ 62\<close> affected rows.
\<close>

definition missingTableBackend :: "unit backend" where
  "missingTableBackend =
     sampleBackend\<lparr>prepareResult := (\<lambda>w tx query. Inl (DriverError ''Error 1146''))\<rparr>"

definition hugeBackend :: "unit backend" where
  "hugeBackend =
     sampleBackend\<lparr>execResult := (\<lambda>w stmt args.
        Inr \<lparr> LastInsertId = (0, None), RowsAffected = (2 ^ 62, None) \<rparr>)\<rparr>"

section \<open>Named-parameter tokens, as the specification describes them\<close>

text \<open>
  The specification's data model: a named-parameter token is the marker character followed
  by one or more identifier characters (letters, digits, underscore). \<open>namedTokens\<close> lists
  the names of the tokens of a text from left to right, duplicates kept: a token starts at
  every marker that an identifier character follows, and its name is the run of identifier
  characters after the marker. \<open>bareMarkers\<close> counts the markers that start no token.
  Both read the text position by position and do not use the regular expression.
\<close>

fun namedTokens :: "string \<Rightarrow> string list" where
  "namedTokens [] = []"
| "namedTokens (c # cs) =
     (if [c] = ''?'' \<and> (case cs of [] \<Rightarrow> False | d # r \<Rightarrow> wordChar d)
      then takeWhile wordChar cs # namedTokens cs
      else namedTokens cs)"

fun bareMarkers :: "string \<Rightarrow> nat" where
  "bareMarkers [] = 0"
| "bareMarkers (c # cs) =
     (if [c] = ''?'' \<and> (case cs of [] \<Rightarrow> True | d # r \<Rightarrow> \<not> wordChar d)
      then Suc (bareMarkers cs)
      else bareMarkers cs)"

text \<open>The bytes that occur in the encoding of a white-space rune.\<close>

definition spaceByte :: "char \<Rightarrow> bool" where
  "spaceByte c \<longleftrightarrow> c \<in> set (concat spaceRunes)"

section \<open>Notions used to state the properties of the executors and of WrapInTx\<close>

text \<open>
  The translated text begins with \<^verbatim>\<open>select\<close>, in any mix of upper and lower case.
\<close>

definition beginsWithSelect :: "string \<Rightarrow> bool" where
  "beginsWithSelect s \<longleftrightarrow> prefix ''select'' (ToLower s)"

text \<open>
  Every execution of the statement succeeds: the execution with the \<open>i\<close>-th value list,
  made after the executions before it, answers the \<open>i\<close>-th result.
\<close>

fun execsSucceed ::
  "'v backend \<Rightarrow> stmtHandle \<Rightarrow> 'v iface list list \<Rightarrow> sqlResult list \<Rightarrow> 'v world \<Rightarrow> bool" where
  "execsSucceed B stmt [] [] w = True"
| "execsSucceed B stmt (args # argss) (result # results) w =
     (execResult B w stmt args = Inr result \<and>
      execsSucceed B stmt argss results (w @ [StmtExec stmt args]))"
| "execsSucceed B stmt _ _ w = False"

text \<open>
  The transaction calls of a world: begin, commit and rollback, in the order they were
  made.
\<close>

fun isTxCall :: "'v call \<Rightarrow> bool" where
  "isTxCall PoolBegin = True"
| "isTxCall (TxCommit tx) = True"
| "isTxCall (TxRollback tx) = True"
| "isTxCall _ = False"

definition txCalls :: "'v world \<Rightarrow> 'v call list" where
  "txCalls w = filter isTxCall w"

text \<open>
  The call with which a frame of \<open>WrapInTx\<close> ends, given what its function came to:
  rollback after a failure, commit after a success, nothing after a panic.
\<close>

fun finalize :: "txHandle \<Rightarrow> 'r outcome \<Rightarrow> 'v call list" where
  "finalize tx Panic = []"
| "finalize tx (Failure err) = [TxRollback tx]"
| "finalize tx (Success res) = [TxCommit tx]"

text \<open>
  A unit of work that calls \<open>WrapInTx\<close> once, with the context handed to it: it may run
  statements before the call, and it goes on after the call with what came before and
  with what the inner call returned. A panic of the inner call passes through it.
\<close>

definition nested ::
  "'v backend \<Rightarrow> (context \<Rightarrow> 'v world \<Rightarrow> 'x \<times> 'v world) \<Rightarrow>
   (context \<Rightarrow> 'v world \<Rightarrow> 'r outcome \<times> 'v world) \<Rightarrow>
   ('x \<Rightarrow> 'r outcome \<Rightarrow> context \<Rightarrow> 'v world \<Rightarrow> 's outcome \<times> 'v world) \<Rightarrow>
   context \<Rightarrow> 'v world \<Rightarrow> 's outcome \<times> 'v world" where
  "nested B before f2 after ctx w =
     (case before ctx w of (x, w1) \<Rightarrow>
        (case WrapInTx B ctx f2 w1 of
           (Panic, w2) \<Rightarrow> (Panic, w2)
         | (r2, w2) \<Rightarrow> after x r2 ctx w2))"

text \<open>A step that makes no transaction call of its own.\<close>

definition quiet :: "('v world \<Rightarrow> 'a \<times> 'v world) \<Rightarrow> bool" where
  "quiet step \<longleftrightarrow> (\<forall>w. txCalls (snd (step w)) = txCalls w)"

section \<open>Properties of trimming and matching\<close>

lemma spaceByte_not_marker: "spaceByte c \<Longrightarrow> c \<noteq> CHR ''?''"
  by (auto simp: spaceByte_def spaceRunes_def)

lemma spaceByte_not_word: "spaceByte c \<Longrightarrow> \<not> wordChar c"
  by (auto simp: spaceByte_def spaceRunes_def wordChar_def)

lemma wordChar_not_marker: "wordChar c \<Longrightarrow> c \<noteq> CHR ''?''"
  by (auto simp: wordChar_def)

lemma leadingSpace_take:
  assumes "leadingSpace s \<noteq> 0"
  shows "take (leadingSpace s) s \<in> set spaceRunes"
proof -
  from assms obtain w where w: "find (\<lambda>w. prefix w s) spaceRunes = Some w"
    by (auto simp: leadingSpace_def split: option.splits)
  then have "w \<in> set spaceRunes" and "prefix w s"
    by (auto simp: find_Some_iff)
  moreover from w have "leadingSpace s = length w"
    by (simp add: leadingSpace_def)
  ultimately show ?thesis
    by (auto simp: prefix_def)
qed

lemma trailingSpace_drop:
  assumes "trailingSpace s \<noteq> 0"
  shows "drop (length s - trailingSpace s) s \<in> set spaceRunes"
proof -
  from assms obtain w where w: "find (\<lambda>w. suffix w s) spaceRunes = Some w"
    by (auto simp: trailingSpace_def split: option.splits)
  then have "w \<in> set spaceRunes" and "suffix w s"
    by (auto simp: find_Some_iff)
  moreover from w have "trailingSpace s = length w"
    by (simp add: trailingSpace_def)
  ultimately show ?thesis
    by (auto simp: suffix_def)
qed

lemma spaceRunes_bytes: "w \<in> set spaceRunes \<Longrightarrow> list_all spaceByte w"
  by (auto simp: spaceByte_def list_all_iff)

lemma TrimLeftSpace_split: "\<exists>l. s = l @ TrimLeftSpace s \<and> list_all spaceByte l"
proof (induction s rule: TrimLeftSpace.induct)
  case (1 s)
  show ?case
  proof (cases "leadingSpace s = 0")
    case True
    then show ?thesis by (simp add: TrimLeftSpace.simps)
  next
    case False
    with 1 obtain l where l: "drop (leadingSpace s) s = l @ TrimLeftSpace (drop (leadingSpace s) s)"
      "list_all spaceByte l" by blast
    have t: "TrimLeftSpace s = TrimLeftSpace (drop (leadingSpace s) s)"
      using False by (subst TrimLeftSpace.simps) simp
    have "list_all spaceByte (take (leadingSpace s) s)"
      using False by (intro spaceRunes_bytes leadingSpace_take)
    moreover have "s = (take (leadingSpace s) s @ l) @ TrimLeftSpace s"
      using l(1) t by (metis append_assoc append_take_drop_id)
    ultimately show ?thesis using l(2) by (metis list_all_append)
  qed
qed

lemma TrimRightSpace_split: "\<exists>r. s = TrimRightSpace s @ r \<and> list_all spaceByte r"
proof (induction s rule: TrimRightSpace.induct)
  case (1 s)
  show ?case
  proof (cases "trailingSpace s = 0")
    case True
    then show ?thesis by (simp add: TrimRightSpace.simps)
  next
    case False
    let ?k = "length s - trailingSpace s"
    from False 1 obtain r where r: "take ?k s = TrimRightSpace (take ?k s) @ r"
      "list_all spaceByte r" by blast
    have t: "TrimRightSpace s = TrimRightSpace (take ?k s)"
      using False by (subst TrimRightSpace.simps) simp
    have "list_all spaceByte (drop ?k s)"
      using False by (intro spaceRunes_bytes trailingSpace_drop)
    moreover have "s = TrimRightSpace s @ (r @ drop ?k s)"
      using r(1) t by (metis append_assoc append_take_drop_id)
    ultimately show ?thesis using r(2) by (metis list_all_append)
  qed
qed

lemma TrimSpace_split:
  "\<exists>l r. s = l @ TrimSpace s @ r \<and> list_all spaceByte l \<and> list_all spaceByte r"
proof -
  obtain l where l: "s = l @ TrimLeftSpace s" "list_all spaceByte l"
    using TrimLeftSpace_split by blast
  obtain r where r: "TrimLeftSpace s = TrimSpace s @ r" "list_all spaceByte r"
    using TrimRightSpace_split [of "TrimLeftSpace s"] by (auto simp: TrimSpace_def)
  from l r show ?thesis by metis
qed

lemma TrimSpace_id: "leadingSpace s = 0 \<Longrightarrow> trailingSpace s = 0 \<Longrightarrow> TrimSpace s = s"
  by (simp add: TrimSpace_def TrimLeftSpace.simps TrimRightSpace.simps)

lemma namedTokens_skip_words: "list_all wordChar w \<Longrightarrow> namedTokens (w @ r) = namedTokens r"
  by (induction w) (auto dest: wordChar_not_marker)

lemma bareMarkers_skip_words: "list_all wordChar w \<Longrightarrow> bareMarkers (w @ r) = bareMarkers r"
  by (induction w) (auto dest: wordChar_not_marker)

lemma namedTokens_skip_space: "list_all spaceByte l \<Longrightarrow> namedTokens (l @ s) = namedTokens s"
  by (induction l) (auto dest: spaceByte_not_marker)

lemma takeWhile_word_space:
  "list_all spaceByte r \<Longrightarrow> takeWhile wordChar (s @ r) = takeWhile wordChar s"
  by (induction s) (auto simp: takeWhile_eq_Nil_iff list_all_iff dest: spaceByte_not_word)

lemma namedTokens_space_end: "list_all spaceByte r \<Longrightarrow> namedTokens (s @ r) = namedTokens s"
proof (induction s)
  case Nil
  then show ?case using namedTokens_skip_space [of r "[]"] by simp
next
  case (Cons c s)
  then show ?case
    by (cases s; cases r) (auto simp: takeWhile_word_space dest: spaceByte_not_word)
qed

lemma namedTokens_TrimSpace: "namedTokens (TrimSpace s) = namedTokens s"
proof -
  obtain l r where "s = l @ TrimSpace s @ r" "list_all spaceByte l" "list_all spaceByte r"
    using TrimSpace_split by blast
  then show ?thesis
    by (metis namedTokens_skip_space namedTokens_space_end)
qed

lemma count_marker_space: "list_all spaceByte l \<Longrightarrow> count_list l (CHR ''?'') = 0"
  by (induction l) (auto dest: spaceByte_not_marker)

lemma count_marker_word: "list_all wordChar l \<Longrightarrow> count_list l (CHR ''?'') = 0"
  by (induction l) (auto dest: wordChar_not_marker)

lemma count_list_append: "count_list (xs @ ys) x = count_list xs x + count_list ys x"
  by (induction xs) auto

lemma count_marker_trim:
  "list_all spaceByte l \<Longrightarrow> list_all spaceByte r \<Longrightarrow>
     count_list (l @ m @ r) (CHR ''?'') = count_list m (CHR ''?'')"
  by (simp add: count_list_append count_marker_space)

lemma count_marker_TrimSpace: "count_list (TrimSpace s) (CHR ''?'') = count_list s (CHR ''?'')"
proof -
  obtain l r where "s = l @ TrimSpace s @ r" "list_all spaceByte l" "list_all spaceByte r"
    using TrimSpace_split by blast
  then show ?thesis
    by (metis count_marker_trim)
qed

lemma expMatch_Some:
  "expMatch s = Some n \<Longrightarrow>
     \<exists>d r. s = CHR ''?'' # d # r \<and> wordChar d \<and> n = Suc (length (takeWhile wordChar (d # r)))"
  by (auto simp: expMatch_def pqPrefix_def split: list.splits if_splits)

lemma expMatch_None:
  "expMatch (c # cs) = None \<Longrightarrow> \<not> ([c] = ''?'' \<and> (case cs of [] \<Rightarrow> False | d # r \<Rightarrow> wordChar d))"
  by (auto simp: expMatch_def pqPrefix_def split: list.splits if_splits)

lemma expMatch_take_drop:
  assumes "expMatch (c # cs) = Some n"
  shows "take n (c # cs) = CHR ''?'' # takeWhile wordChar cs"
    and "drop n (c # cs) = dropWhile wordChar cs"
    and "[c] = ''?''" and "case cs of [] \<Rightarrow> False | d # r \<Rightarrow> wordChar d"
proof -
  from expMatch_Some [OF assms] obtain d r where s: "c = CHR ''?''" "cs = d # r" "wordChar d"
    "n = Suc (length (takeWhile wordChar cs))"
    by blast
  show "take n (c # cs) = CHR ''?'' # takeWhile wordChar cs"
    unfolding s(1) s(4) take_Suc_Cons
    by (simp only: takeWhile_eq_take [symmetric])
  show "drop n (c # cs) = dropWhile wordChar cs"
    unfolding s(4) drop_Suc_Cons
    by (rule dropWhile_eq_drop [symmetric])
  show "[c] = ''?''" using s(1) by simp
  show "case cs of [] \<Rightarrow> False | d # r \<Rightarrow> wordChar d" using s(2,3) by simp
qed

lemma namedTokens_dropWhile: "namedTokens (dropWhile wordChar cs) = namedTokens cs"
proof -
  have "list_all wordChar (takeWhile wordChar cs)"
    by (auto simp: list_all_iff dest: set_takeWhileD)
  then have "namedTokens (takeWhile wordChar cs @ dropWhile wordChar cs) =
             namedTokens (dropWhile wordChar cs)"
    by (rule namedTokens_skip_words)
  then show ?thesis by (simp only: takeWhile_dropWhile_id)
qed

lemma count_marker_dropWhile:
  "count_list (dropWhile wordChar cs) (CHR ''?'') = count_list cs (CHR ''?'')"
proof -
  have "list_all wordChar (takeWhile wordChar cs)"
    by (auto simp: list_all_iff dest: set_takeWhileD)
  then have "count_list (takeWhile wordChar cs) (CHR ''?'') = 0"
    by (rule count_marker_word)
  then have "count_list (takeWhile wordChar cs @ dropWhile wordChar cs) (CHR ''?'') =
             count_list (dropWhile wordChar cs) (CHR ''?'')"
    by (simp only: count_list_append add_0)
  then show ?thesis by (simp only: takeWhile_dropWhile_id)
qed

lemma FindAllString_names:
  "map (\<lambda>p. TrimPrefix p pqPrefix) (FindAllString s) = namedTokens s"
proof (induction s rule: FindAllString.induct)
  case 1
  then show ?case by (simp add: FindAllString.simps(1))
next
  case (2 c cs)
  show ?case
  proof (cases "expMatch (c # cs)")
    case None
    have "FindAllString (c # cs) = FindAllString cs"
      by (simp only: FindAllString.simps None option.case)
    moreover have "namedTokens (c # cs) = namedTokens cs"
      using expMatch_None [OF None] by (simp only: namedTokens.simps if_False)
    ultimately show ?thesis using 2(1) [OF None] by (simp only:)
  next
    case (Some n)
    note m = expMatch_take_drop [OF Some]
    have "FindAllString (c # cs) =
          (CHR ''?'' # takeWhile wordChar cs) # FindAllString (dropWhile wordChar cs)"
      by (simp only: FindAllString.simps Some option.case m(1,2))
    moreover have "TrimPrefix (CHR ''?'' # takeWhile wordChar cs) pqPrefix = takeWhile wordChar cs"
      by (simp add: TrimPrefix_def pqPrefix_def)
    moreover have "namedTokens (c # cs) = takeWhile wordChar cs # namedTokens cs"
      using m(3,4) by (simp only: namedTokens.simps simp_thms if_True)
    moreover have "map (\<lambda>p. TrimPrefix p pqPrefix) (FindAllString (dropWhile wordChar cs)) =
                   namedTokens cs"
      using 2(2) [OF Some] by (simp only: m(2) namedTokens_dropWhile)
    ultimately show ?thesis by (simp only: list.map)
  qed
qed

lemma ReplaceAllString_count:
  "count_list (ReplaceAllString s ''?'') (CHR ''?'') = count_list s (CHR ''?'')"
proof (induction s "''?''" rule: ReplaceAllString.induct)
  case 1
  then show ?case by (simp add: ReplaceAllString.simps(1))
next
  case (2 c cs)
  show ?case
  proof (cases "expMatch (c # cs)")
    case None
    have "ReplaceAllString (c # cs) ''?'' = c # ReplaceAllString cs ''?''"
      by (simp only: ReplaceAllString.simps None option.case)
    then show ?thesis using 2(1) [OF None] by (simp only: count_list.simps)
  next
    case (Some n)
    note m = expMatch_take_drop [OF Some]
    have "ReplaceAllString (c # cs) ''?'' = ''?'' @ ReplaceAllString (dropWhile wordChar cs) ''?''"
      by (simp only: ReplaceAllString.simps Some option.case m(2))
    moreover have "count_list (ReplaceAllString (dropWhile wordChar cs) ''?'') (CHR ''?'') =
                   count_list cs (CHR ''?'')"
      using 2(2) [OF Some] by (simp only: m(2) count_marker_dropWhile)
    moreover have "c = CHR ''?''" using m(3) by simp
    ultimately show ?thesis by (simp only: count_list.simps append.simps if_True)
  qed
qed

lemma ReplaceAllString_no_match: "namedTokens s = [] \<Longrightarrow> ReplaceAllString s repl = s"
proof (induction s repl rule: ReplaceAllString.induct)
  case (1 repl)
  then show ?case by (simp add: ReplaceAllString.simps(1))
next
  case (2 c cs repl)
  from 2(3) have nt: "namedTokens cs = []" and
    no: "\<not> ([c] = ''?'' \<and> (case cs of [] \<Rightarrow> False | d # r \<Rightarrow> wordChar d))"
    by (auto split: if_splits)
  from no have "expMatch (c # cs) = None"
    by (auto simp: expMatch_def pqPrefix_def split: list.splits)
  then have "ReplaceAllString (c # cs) repl = c # ReplaceAllString cs repl"
    by (simp only: ReplaceAllString.simps option.case)
  with 2(1) [OF \<open>expMatch (c # cs) = None\<close> nt] show ?case by (simp only:)
qed

lemma count_marker_tokens:
  "count_list s (CHR ''?'') = length (namedTokens s) + bareMarkers s"
  by (induction s) (auto split: list.splits)

section \<open>The query translator\<close>

lemma convertQuery_names: "snd (convertQuery query) = namedTokens query"
  by (simp add: convertQuery_def Let_def FindAllString_names namedTokens_TrimSpace)

lemma convertQuery_markers:
  "count_list (fst (convertQuery query)) (CHR ''?'') = count_list query (CHR ''?'')"
  by (simp add: convertQuery_def Let_def ReplaceAllString_count count_marker_TrimSpace)

text \<open>
  Claim C4, as the code has it. For a query text with no named-parameter token,
  \<open>convertQuery\<close> returns the text with its leading and trailing white space removed
  (\<^verbatim>\<open>strings.TrimSpace\<close> is its first statement) and the empty name list; a text that
  neither starts nor ends with white space comes back unchanged. The function returns a
  pair and has no error result.
\<close>

theorem convertQuery_no_tokens:
  assumes "namedTokens query = []"
  shows "convertQuery query = (TrimSpace query, []) \<and>
         (leadingSpace query = 0 \<and> trailingSpace query = 0 \<longrightarrow> convertQuery query = (query, []))"
proof -
  from assms have "namedTokens (TrimSpace query) = []"
    by (simp only: namedTokens_TrimSpace)
  then have "ReplaceAllString (TrimSpace query) ''?'' = TrimSpace query"
    by (rule ReplaceAllString_no_match)
  moreover have "snd (convertQuery query) = []"
    using assms by (simp only: convertQuery_names)
  moreover have "fst (convertQuery query) = ReplaceAllString (TrimSpace query) ''?''"
    by (simp add: convertQuery_def Let_def)
  ultimately have "convertQuery query = (TrimSpace query, [])"
    by (metis prod.collapse)
  then show ?thesis by (simp add: TrimSpace_id)
qed

text \<open>The theorem at the query \<^verbatim>\<open>select 1\<close>.\<close>

theorem convertQuery_no_tokens_witness:
  "namedTokens ''select 1'' = [] \<and> convertQuery ''select 1'' = (''select 1'', [])"
proof -
  have n: "namedTokens ''select 1'' = []" by code_simp
  have l: "leadingSpace ''select 1'' = 0" by code_simp
  have t: "trailingSpace ''select 1'' = 0" by code_simp
  from convertQuery_no_tokens [OF n] l t n show ?thesis by blast
qed

text \<open>
  Claim C4 as stated (the text comes back unchanged) fails on a query that starts with a
  blank: \<^verbatim>\<open>" select 1"\<close> has no token and comes back as \<^verbatim>\<open>"select 1"\<close>.
\<close>

theorem convertQuery_unchanged_counterexample:
  "namedTokens '' select 1'' = [] \<and> convertQuery '' select 1'' \<noteq> ('' select 1'', [])"
  by code_simp

lemma ReplaceAllString_head:
  "(case ReplaceAllString s ''?'' of [] \<Rightarrow> False | d # r \<Rightarrow> wordChar d) =
   (case s of [] \<Rightarrow> False | d # r \<Rightarrow> wordChar d)"
proof (cases s)
  case Nil
  then show ?thesis by (simp add: ReplaceAllString.simps(1))
next
  case (Cons c cs)
  show ?thesis
  proof (cases "expMatch (c # cs)")
    case None
    have "ReplaceAllString (c # cs) ''?'' = c # ReplaceAllString cs ''?''"
      by (simp only: ReplaceAllString.simps None option.case)
    then show ?thesis using Cons by simp
  next
    case (Some n)
    note m = expMatch_take_drop [OF Some]
    have "ReplaceAllString (c # cs) ''?'' = ''?'' @ ReplaceAllString (dropWhile wordChar cs) ''?''"
      by (simp only: ReplaceAllString.simps Some option.case m(2))
    moreover have "c = CHR ''?''" using m(3) by simp
    ultimately show ?thesis using Cons by (simp add: wordChar_def)
  qed
qed

lemma dropWhile_head: "\<not> (case dropWhile P xs of [] \<Rightarrow> False | d # r \<Rightarrow> P d)"
  by (induction xs) auto

lemma ReplaceAllString_no_tokens: "namedTokens (ReplaceAllString s ''?'') = []"
proof (induction s "''?''" rule: ReplaceAllString.induct)
  case 1
  then show ?case by (simp add: ReplaceAllString.simps(1))
next
  case (2 c cs)
  show ?case
  proof (cases "expMatch (c # cs)")
    case None
    have r: "ReplaceAllString (c # cs) ''?'' = c # ReplaceAllString cs ''?''"
      by (simp only: ReplaceAllString.simps None option.case)
    have "\<not> ([c] = ''?'' \<and> (case ReplaceAllString cs ''?'' of [] \<Rightarrow> False | d # r \<Rightarrow> wordChar d))"
      using expMatch_None [OF None] unfolding ReplaceAllString_head [of cs] .
    then have "namedTokens (c # ReplaceAllString cs ''?'') = namedTokens (ReplaceAllString cs ''?'')"
      by (simp only: namedTokens.simps if_False)
    then show ?thesis using 2(1) [OF None] r by (simp only:)
  next
    case (Some n)
    note m = expMatch_take_drop [OF Some]
    let ?rest = "ReplaceAllString (dropWhile wordChar cs) ''?''"
    have r: "ReplaceAllString (c # cs) ''?'' = CHR ''?'' # ?rest"
      by (simp only: ReplaceAllString.simps Some option.case m(2) append.simps)
    have "\<not> (case ?rest of [] \<Rightarrow> False | d # r \<Rightarrow> wordChar d)"
      by (simp only: ReplaceAllString_head dropWhile_head not_False_eq_True)
    then have "namedTokens (CHR ''?'' # ?rest) = namedTokens ?rest"
      by (simp only: namedTokens.simps simp_thms if_False)
    moreover have "namedTokens ?rest = []"
      using 2(2) [OF Some] by (simp only: m(2))
    ultimately show ?thesis using r by (simp only:)
  qed
qed

lemma convertQuery_no_tokens_left: "namedTokens (fst (convertQuery query)) = []"
  by (simp add: convertQuery_def Let_def ReplaceAllString_no_tokens)

lemma convertQuery_positional:
  "bareMarkers (fst (convertQuery query)) = length (namedTokens query) + bareMarkers query"
proof -
  have "count_list (fst (convertQuery query)) (CHR ''?'') =
        length (namedTokens (fst (convertQuery query))) + bareMarkers (fst (convertQuery query))"
    by (rule count_marker_tokens)
  then have "bareMarkers (fst (convertQuery query)) = count_list (fst (convertQuery query)) (CHR ''?'')"
    by (simp add: convertQuery_no_tokens_left)
  also have "\<dots> = count_list query (CHR ''?'')" by (rule convertQuery_markers)
  also have "\<dots> = length (namedTokens query) + bareMarkers query" by (rule count_marker_tokens)
  finally show ?thesis .
qed

text \<open>
  Claim C5, as the code has it. The name list \<open>convertQuery\<close> returns is the list of the
  names of the named-parameter tokens of the query, in the order they stand in the text,
  duplicates kept, so its length is the number \<open>n\<close> of tokens. In the rewritten text no
  named-parameter token is left: every \<^verbatim>\<open>?\<close> of it is a positional placeholder, a
  \<^verbatim>\<open>?\<close> that no identifier character follows. There are \<open>n + m\<close> of them, where \<open>m\<close> is
  the number of \<^verbatim>\<open>?\<close> in the query that no identifier character follows: these match
  nothing and are copied as they are. The rewritten text holds exactly \<open>n\<close> positional
  placeholders when the query has no such \<^verbatim>\<open>?\<close>.
\<close>

theorem convertQuery_tokens:
  "snd (convertQuery query) = namedTokens query \<and>
   length (snd (convertQuery query)) = length (namedTokens query) \<and>
   namedTokens (fst (convertQuery query)) = [] \<and>
   bareMarkers (fst (convertQuery query)) = length (namedTokens query) + bareMarkers query \<and>
   count_list (fst (convertQuery query)) (CHR ''?'') = bareMarkers (fst (convertQuery query))"
proof -
  have "count_list (fst (convertQuery query)) (CHR ''?'') = bareMarkers (fst (convertQuery query))"
    using count_marker_tokens [of "fst (convertQuery query)"]
    by (simp add: convertQuery_no_tokens_left)
  then show ?thesis
    by (simp add: convertQuery_names convertQuery_no_tokens_left convertQuery_positional)
qed

text \<open>
  Claim C5 as stated (exactly \<open>n\<close> positional placeholders in the rewritten text) fails on
  a query that mixes a positional placeholder with a named one: one token, two
  positional placeholders.
\<close>

theorem convertQuery_placeholders_counterexample:
  "length (namedTokens ''a = ? and b = ?n'') = 1 \<and>
   convertQuery ''a = ? and b = ?n'' = (''a = ? and b = ?'', [''n'']) \<and>
   bareMarkers (fst (convertQuery ''a = ? and b = ?n'')) = 2 \<and>
   count_list (fst (convertQuery ''a = ? and b = ?n'')) (CHR ''?'') = 2"
  by code_simp

section \<open>The parameter binder\<close>

lemma reorderLoop_ok:
  "set namedParams \<subseteq> dom params \<Longrightarrow>
     reorderLoop params namedParams acc = Inr (acc @ map (\<lambda>n. the (params n)) namedParams)"
  by (induction namedParams arbitrary: acc) auto

text \<open>
  Claim C6. When the mapping holds every name of the list, \<open>reorderParameters\<close> succeeds;
  the value list is as long as the name list, its entry \<open>i\<close> is the mapping's value for
  the name at \<open>i\<close>, and two places that hold the same name get the same value.
\<close>

theorem reorderParameters_ok:
  assumes "set namedParams \<subseteq> dom params"
  shows "\<exists>out. reorderParameters params namedParams = Inr out \<and>
           length out = length namedParams \<and>
           (\<forall>i<length namedParams. params (namedParams ! i) = Some (out ! i)) \<and>
           (\<forall>i<length namedParams. \<forall>j<length namedParams.
              namedParams ! i = namedParams ! j \<longrightarrow> out ! i = out ! j)"
proof -
  let ?out = "map (\<lambda>n. the (params n)) namedParams"
  have "reorderParameters params namedParams = Inr ?out"
    using reorderLoop_ok [OF assms, of "[]"] by (simp add: reorderParameters_def)
  moreover have "\<forall>i<length namedParams. params (namedParams ! i) = Some (?out ! i)"
    using assms by (auto simp: subset_iff dom_def)
  ultimately show ?thesis by auto
qed

text \<open>The theorem at the names \<open>b, a, b\<close> and a mapping of \<open>a\<close> and \<open>b\<close>.\<close>

theorem reorderParameters_ok_witness:
  "set [''b'', ''a'', ''b''] \<subseteq> dom [''a'' \<mapsto> (1::nat), ''b'' \<mapsto> 2] \<and>
   reorderParameters [''a'' \<mapsto> (1::nat), ''b'' \<mapsto> 2] [''b'', ''a'', ''b''] = Inr [2, 1, 2]"
proof -
  have h: "set [''b'', ''a'', ''b''] \<subseteq> dom [''a'' \<mapsto> (1::nat), ''b'' \<mapsto> 2]" by simp
  from reorderParameters_ok [OF h] h show ?thesis
    by (simp add: reorderParameters_def)
qed

lemma reorderLoop_missing:
  "list_all (\<lambda>m. params m \<noteq> None) pre \<Longrightarrow> params n = None \<Longrightarrow>
     reorderLoop params (pre @ n # post) acc = Inl (ParameterMissing n)"
  by (induction pre arbitrary: acc) auto

text \<open>
  Claim C7. When some name of the list is not in the mapping, \<open>reorderParameters\<close> fails
  with the missing-parameter error of the leftmost such name: every name before it is in
  the mapping. The result is the error alone, with no value list and no other name.
\<close>

theorem reorderParameters_missing:
  assumes "\<not> set namedParams \<subseteq> dom params"
  shows "\<exists>pre n post. namedParams = pre @ n # post \<and>
           list_all (\<lambda>m. params m \<noteq> None) pre \<and> params n = None \<and>
           reorderParameters params namedParams = Inl (ParameterMissing n)"
proof -
  from assms have "\<exists>n\<in>set namedParams. params n = None" by auto
  then obtain pre n post where s: "namedParams = pre @ n # post" "params n = None"
    "\<forall>m\<in>set pre. params m \<noteq> None"
    by (auto dest!: split_list_first_prop)
  then have "list_all (\<lambda>m. params m \<noteq> None) pre" by (simp add: list_all_iff)
  with s show ?thesis
    using reorderLoop_missing [of params pre n post "[]"]
    by (auto simp: reorderParameters_def)
qed

text \<open>The theorem at a list whose second and fourth names are missing: the second is named.\<close>

theorem reorderParameters_missing_witness:
  "\<not> set [''a'', ''x'', ''b'', ''y''] \<subseteq> dom [''a'' \<mapsto> (1::nat), ''b'' \<mapsto> 2] \<and>
   reorderParameters [''a'' \<mapsto> (1::nat), ''b'' \<mapsto> 2] [''a'', ''x'', ''b'', ''y''] =
     Inl (ParameterMissing ''x'')"
proof -
  have h: "\<not> set [''a'', ''x'', ''b'', ''y''] \<subseteq> dom [''a'' \<mapsto> (1::nat), ''b'' \<mapsto> 2]" by simp
  from reorderParameters_missing [OF h] h show ?thesis
    by (simp add: reorderParameters_def)
qed

section \<open>Classification of the statement\<close>

lemma beginsWithSelect_slice:
  assumes "beginsWithSelect s"
  shows "\<exists>head. slice_to s 6 = Some head \<and> ToLower head = ''select''"
proof -
  from assms obtain rest where r: "map lowerByte s = ''select'' @ rest"
    by (auto simp: beginsWithSelect_def ToLower_def prefix_def)
  then have "length (map lowerByte s) = 6 + length rest" by simp
  then have len: "6 \<le> length s" by simp
  have "map lowerByte (take 6 s) = take 6 (map lowerByte s)" by (simp add: take_map)
  also have "\<dots> = ''select''" using r by simp
  finally show ?thesis using len by (simp add: slice_to_def ToLower_def)
qed

text \<open>
  Claim C9. When the translated query begins with \<^verbatim>\<open>select\<close> in any case,
  \<open>QueryBulk\<close> fails with the select-not-allowed error whatever the parameter mappings
  are, and makes no call on the backend: the world is as it was, nothing is prepared and
  nothing is executed.
\<close>

theorem QueryBulk_select_rejected:
  assumes "beginsWithSelect (fst (convertQuery query))"
  shows "QueryBulk B ctx query params w = (Failure SelectNotAllowed, w)"
proof -
  obtain cq ph where c: "convertQuery query = (cq, ph)" by (cases "convertQuery query")
  with assms obtain head where "slice_to cq 6 = Some head" "ToLower head = ''select''"
    by (auto dest: beginsWithSelect_slice)
  with c show ?thesis by (simp add: QueryBulk_def)
qed

text \<open>The theorem at a select statement in mixed case, with a leading blank and two mappings.\<close>

theorem QueryBulk_select_rejected_witness:
  "beginsWithSelect (fst (convertQuery '' SeLect * from sample where id = ?id'')) \<and>
   QueryBulk sampleBackend \<lparr>txValue = None\<rparr> '' SeLect * from sample where id = ?id''
     [[''id'' \<mapsto> Int64 1], Map.empty] [] = (Failure SelectNotAllowed, [])"
proof -
  have h: "beginsWithSelect (fst (convertQuery '' SeLect * from sample where id = ?id''))"
    by code_simp
  from QueryBulk_select_rejected [OF h] h show ?thesis by simp
qed

lemma ReplaceAllString_length: "length (ReplaceAllString s ''?'') \<le> length s"
proof (induction s "''?''" rule: ReplaceAllString.induct)
  case 1
  then show ?case by (simp add: ReplaceAllString.simps(1))
next
  case (2 c cs)
  show ?case
  proof (cases "expMatch (c # cs)")
    case None
    have "ReplaceAllString (c # cs) ''?'' = c # ReplaceAllString cs ''?''"
      by (simp only: ReplaceAllString.simps None option.case)
    then show ?thesis using 2(1) [OF None] by simp
  next
    case (Some n)
    have "ReplaceAllString (c # cs) ''?'' = ''?'' @ ReplaceAllString (drop n (c # cs)) ''?''"
      by (simp only: ReplaceAllString.simps Some option.case)
    moreover have "length (drop n (c # cs)) < length (c # cs)"
      using expMatch_pos [OF Some] by simp
    ultimately show ?thesis using 2(2) [OF Some] by simp
  qed
qed

lemma convertQuery_length: "length (fst (convertQuery query)) \<le> length (TrimSpace query)"
  by (simp add: convertQuery_def Let_def ReplaceAllString_length)

lemma convertQuery_empty: "TrimSpace query = [] \<Longrightarrow> convertQuery query = ([], [])"
  by (simp add: convertQuery_def Let_def ReplaceAllString.simps(1) FindAllString.simps(1))

text \<open>
  Claim C3. The classification step is not total. \<open>QueryBulk\<close> panics, before any call
  on the backend, on every query whose trimmed text has fewer than six bytes: the
  translated text is no longer than the trimmed one and \<^verbatim>\<open>convertedQuery[:6]\<close> is out
  of range. \<open>Query\<close> panics on a query whose trimmed text is empty, once the backend has
  prepared the empty statement: \<^verbatim>\<open>convertedQuery[:1]\<close> is out of range. Neither returns
  an error.
\<close>

theorem classification_panics:
  "(length (TrimSpace query) < 6 \<longrightarrow> QueryBulk B ctx query bulkParams w = (Panic, w)) \<and>
   (TrimSpace query = [] \<and> prepareResult B w (txValue ctx) [] = Inr stmt \<longrightarrow>
      Query B ctx query params w = (Panic, w @ [Prepare (txValue ctx) [], StmtClose stmt]))"
proof (intro conjI impI)
  assume "length (TrimSpace query) < 6"
  then have "length (fst (convertQuery query)) < 6"
    using convertQuery_length [of query] by simp
  then show "QueryBulk B ctx query bulkParams w = (Panic, w)"
    by (cases "convertQuery query") (simp add: QueryBulk_def slice_to_def)
next
  assume a: "TrimSpace query = [] \<and> prepareResult B w (txValue ctx) [] = Inr stmt"
  then have "convertQuery query = ([], [])" by (simp add: convertQuery_empty)
  with a show "Query B ctx query params w = (Panic, w @ [Prepare (txValue ctx) [], StmtClose stmt])"
    by (cases "txValue ctx")
      (simp_all add: Query_def reorderParameters_def prepareStatement_def tx_Prepare_def
        pool_Prepare_def slice_to_def deferClose_def)
qed

text \<open>The theorem at the statement \<^verbatim>\<open>do 1\<close> and at a query of two blanks.\<close>

theorem classification_panics_witness:
  "length (TrimSpace ''do 1'') < 6 \<and>
   QueryBulk sampleBackend \<lparr>txValue = None\<rparr> ''do 1'' [] [] = (Panic, []) \<and>
   TrimSpace ''  '' = [] \<and> prepareResult sampleBackend [] None [] = Inr 0 \<and>
   Query sampleBackend \<lparr>txValue = None\<rparr> ''  '' Map.empty [] = (Panic, [Prepare None [], StmtClose 0])"
proof -
  have a: "length (TrimSpace ''do 1'') < 6" by code_simp
  have b: "TrimSpace ''  '' = []" by code_simp
  have c: "prepareResult sampleBackend [] (txValue \<lparr>txValue = None\<rparr>) [] = Inr 0"
    by (simp add: sampleBackend_def)
  from classification_panics [of "''do 1''" sampleBackend "\<lparr>txValue = None\<rparr>" "[]" "[]"] a
  have 1: "QueryBulk sampleBackend \<lparr>txValue = None\<rparr> ''do 1'' [] [] = (Panic, [])" by blast
  from classification_panics [of "''  ''" sampleBackend "\<lparr>txValue = None\<rparr>" _ "[]" 0 Map.empty] b c
  have 2: "Query sampleBackend \<lparr>txValue = None\<rparr> ''  '' Map.empty [] = (Panic, [Prepare None [], StmtClose 0])"
    by simp
  from a b c 1 2 show ?thesis by simp
qed

section \<open>Query\<close>

lemma lowerByte_s: "lowerByte c = CHR ''s'' \<longleftrightarrow> c = CHR ''s'' \<or> c = CHR ''S''"
  by (auto simp: lowerByte_def split: if_splits)

text \<open>
  Claim C2, what the code does. Once the parameters are bound and the statement is
  prepared, \<open>Query\<close> looks at the first byte of the translated text and at nothing else:
  when it is \<^verbatim>\<open>s\<close> or \<^verbatim>\<open>S\<close> the statement is run with \<^verbatim>\<open>stmt.Query\<close> and its rows
  are returned, otherwise it is run with \<^verbatim>\<open>stmt.Exec\<close> and the result set of the two
  counters is returned. The word \<^verbatim>\<open>select\<close> is not looked for, so every statement whose
  first letter is \<^verbatim>\<open>s\<close> is run as a read.
\<close>

theorem Query_classifies_by_first_byte:
  assumes "convertQuery query = (c # rest, placeholders)"
    and "reorderParameters params placeholders = Inr args"
    and "prepareStatement B ctx (c # rest) w = (Inr stmt, w1)"
  shows "Query B ctx query params w =
     deferClose stmt
       (if c = CHR ''s'' \<or> c = CHR ''S''
        then (case stmt_Query B stmt args w1 of
                (Inl err, w2) \<Rightarrow> (Failure err, w2)
              | (Inr rows, w2) \<Rightarrow>
                  (returned (scanLoop (Columns rows) (Scans rows) []), w2 @ [RowsClose]))
        else (case stmt_Exec B stmt args w1 of
                (Inl err, w2) \<Rightarrow> (Failure err, w2)
              | (Inr result, w2) \<Rightarrow> (returned (prepareResultSet result), w2)))"
proof -
  have "slice_to (c # rest) 1 = Some [c]" by (simp add: slice_to_def)
  moreover have "ToLower [c] = ''s'' \<longleftrightarrow> c = CHR ''s'' \<or> c = CHR ''S''"
    by (simp add: ToLower_def lowerByte_s)
  ultimately show ?thesis
    using assms by (simp add: Query_def prepareDataSet_def split: prod.splits sum.splits)
qed

text \<open>
  The theorem at the statement \<^verbatim>\<open>set @a = 1\<close>, which is not a select statement: it is
  run with \<^verbatim>\<open>stmt.Query\<close>, never with \<^verbatim>\<open>stmt.Exec\<close>, and the result is the empty
  row sequence, not the row of the two counters.
\<close>

theorem Query_classifies_by_first_byte_witness:
  "convertQuery ''set @a = 1'' = (''set @a = 1'', []) \<and>
   reorderParameters (Map.empty :: string \<rightharpoonup> unit iface) [] = Inr [] \<and>
   prepareStatement sampleBackend \<lparr>txValue = None\<rparr> ''set @a = 1'' [] =
     (Inr 0, [Prepare None ''set @a = 1'']) \<and>
   Query sampleBackend \<lparr>txValue = None\<rparr> ''set @a = 1'' Map.empty [] =
     (Success [], [Prepare None ''set @a = 1'', StmtQuery 0 [], RowsClose, StmtClose 0])"
proof -
  have a: "convertQuery ''set @a = 1'' = (CHR ''s'' # ''et @a = 1'', [])" by code_simp
  have b: "reorderParameters (Map.empty :: string \<rightharpoonup> unit iface) [] = Inr []"
    by (simp add: reorderParameters_def)
  have c: "prepareStatement sampleBackend \<lparr>txValue = None\<rparr> (CHR ''s'' # ''et @a = 1'') [] =
     (Inr 0, [Prepare None ''set @a = 1''])"
    by (simp add: prepareStatement_def pool_Prepare_def sampleBackend_def)
  from Query_classifies_by_first_byte [OF a b c] a b c show ?thesis
    by (simp add: deferClose_def stmt_Query_def sampleBackend_def returned_def)
qed

section \<open>QueryBulk\<close>

lemma sint_sum_list:
  "sint (sum_list (ws :: int64 list)) = signed_take_bit 63 (sum_list (map sint ws))"
proof (induction ws)
  case Nil
  then show ?case by simp
next
  case (Cons a ws)
  have "sint (a + sum_list ws) = signed_take_bit 63 (sint a + sint (sum_list ws))"
    by (simp add: sint_word_ariths)
  also have "\<dots> = signed_take_bit 63 (sint a + sum_list (map sint ws))"
  proof -
    have "signed_take_bit 63 (sint a + signed_take_bit 63 (sum_list (map sint ws))) =
          signed_take_bit 63 (signed_take_bit 63 (sint a) +
            signed_take_bit 63 (signed_take_bit 63 (sum_list (map sint ws))))"
      by (simp only: signed_take_bit_add)
    also have "\<dots> = signed_take_bit 63 (sint a + sum_list (map sint ws))"
      by (simp only: signed_take_bit_signed_take_bit min.idem signed_take_bit_add)
    finally show ?thesis unfolding Cons.IH .
  qed
  finally show ?case by simp
qed

lemma sint_sum_list_exact:
  assumes "- (2 ^ 63) \<le> sum_list (map sint (ws :: int64 list))"
    and "sum_list (map sint ws) < 2 ^ 63"
  shows "sint (sum_list ws) = sum_list (map sint ws)"
  using assms by (simp add: sint_sum_list signed_take_bit_int_eq_self)

lemma bulkLoop_all_succeed:
  "map (\<lambda>pms. reorderParameters pms placeholders) params = map Inr argss \<Longrightarrow>
   execsSucceed B stmt argss results w \<Longrightarrow>
   bulkLoop B stmt placeholders params lastID affRows w =
     (Inr (if results = [] then lastID else fst (LastInsertId (last results)),
           affRows + sum_list (map (\<lambda>r. fst (RowsAffected r)) results)),
      w @ map (StmtExec stmt) argss)"
proof (induction params arbitrary: argss results lastID affRows w)
  case Nil
  then show ?case by (cases results) simp_all
next
  case (Cons pms params)
  from Cons.prems(1) obtain args argss' where a: "argss = args # argss'"
    "reorderParameters pms placeholders = Inr args"
    "map (\<lambda>pms. reorderParameters pms placeholders) params = map Inr argss'"
    by (cases argss) auto
  from Cons.prems(2) a(1) obtain result results' where r: "results = result # results'"
    "execResult B w stmt args = Inr result"
    "execsSucceed B stmt argss' results' (w @ [StmtExec stmt args])"
    by (cases results) auto
  have "bulkLoop B stmt placeholders (pms # params) lastID affRows w =
        bulkLoop B stmt placeholders params (fst (LastInsertId result))
          (affRows + fst (RowsAffected result)) (w @ [StmtExec stmt args])"
    using a(2) r(2) by (simp add: stmt_Exec_def)
  also have "\<dots> =
     (Inr (if results' = [] then fst (LastInsertId result) else fst (LastInsertId (last results')),
           (affRows + fst (RowsAffected result)) + sum_list (map (\<lambda>r. fst (RowsAffected r)) results')),
      (w @ [StmtExec stmt args]) @ map (StmtExec stmt) argss')"
    by (rule Cons.IH [OF a(3) r(3)])
  finally show ?case using a(1) r(1) by (simp add: add.assoc)
qed

lemma not_select_slice:
  assumes "6 \<le> length s" and "\<not> beginsWithSelect s"
  shows "slice_to s 6 = Some (take 6 s) \<and> ToLower (take 6 s) \<noteq> ''select''"
proof -
  have "ToLower (take 6 s) \<noteq> ''select''"
  proof
    assume "ToLower (take 6 s) = ''select''"
    then have "map lowerByte (take 6 s @ drop 6 s) = ''select'' @ map lowerByte (drop 6 s)"
      by (simp only: map_append ToLower_def)
    then have "prefix ''select'' (ToLower s)"
      by (simp add: ToLower_def prefix_def)
    with assms(2) show False by (simp add: beginsWithSelect_def)
  qed
  with assms(1) show ?thesis by (simp add: slice_to_def)
qed

text \<open>
  Claim C8, as the code has it. Let the translated statement have at least six bytes and
  not begin with \<^verbatim>\<open>select\<close>, let the backend prepare it, and let each of the \<open>k\<close>
  mappings bind and each of the \<open>k\<close> executions succeed, with the results \<open>results\<close>.
  Then \<open>QueryBulk\<close> succeeds with one row: \<^verbatim>\<open>affected_rows\<close> is the sum of the
  affected-row counts of the \<open>k\<close> results in Go's \<^verbatim>\<open>int64\<close> arithmetic, which wraps
  around, and \<^verbatim>\<open>last_insert_id\<close> is the identifier of the last result. For \<open>k = 0\<close> both
  are 0 and the call still succeeds. The calls made are the \<open>k\<close> executions in order and
  the close of the statement. Read as a signed number, the \<^verbatim>\<open>int64\<close> sum is the sum of
  the counts as integers reduced to 64 bits; it is that sum whenever the sum is an
  \<^verbatim>\<open>int64\<close>.
\<close>

theorem QueryBulk_summary:
  assumes "convertQuery query = (convertedQuery, placeholders)"
    and "6 \<le> length convertedQuery" and "\<not> beginsWithSelect convertedQuery"
    and "prepareStatement B ctx convertedQuery w = (Inr stmt, w1)"
    and "map (\<lambda>pms. reorderParameters pms placeholders) params = map Inr argss"
    and "execsSucceed B stmt argss results w1"
  shows "QueryBulk B ctx query params w =
     (Success [Map.empty
        (''affected_rows'' \<mapsto> Int64 (sum_list (map (\<lambda>r. fst (RowsAffected r)) results)),
         ''last_insert_id'' \<mapsto>
            Int64 (if results = [] then 0 else fst (LastInsertId (last results))))],
      w1 @ map (StmtExec stmt) argss @ [StmtClose stmt]) \<and>
     length results = length params \<and>
     sint (sum_list (map (\<lambda>r. fst (RowsAffected r)) results)) =
       signed_take_bit 63 (\<Sum>r\<leftarrow>results. sint (fst (RowsAffected r))) \<and>
     (- (2 ^ 63) \<le> (\<Sum>r\<leftarrow>results. sint (fst (RowsAffected r))) \<and>
      (\<Sum>r\<leftarrow>results. sint (fst (RowsAffected r))) < 2 ^ 63 \<longrightarrow>
        sint (sum_list (map (\<lambda>r. fst (RowsAffected r)) results)) =
        (\<Sum>r\<leftarrow>results. sint (fst (RowsAffected r))))"
proof -
  have "bulkLoop B stmt placeholders params 0 0 w1 =
     (Inr (if results = [] then 0 else fst (LastInsertId (last results)),
           0 + sum_list (map (\<lambda>r. fst (RowsAffected r)) results)),
      w1 @ map (StmtExec stmt) argss)"
    using assms(5,6) by (rule bulkLoop_all_succeed)
  moreover have "length results = length argss"
    using assms(6) by (induction B stmt argss results w1 rule: execsSucceed.induct) simp_all
  moreover have "length argss = length params"
    using assms(5) by (metis length_map)
  moreover have "sint (sum_list (map (\<lambda>r. fst (RowsAffected r)) results)) =
       signed_take_bit 63 (\<Sum>r\<leftarrow>results. sint (fst (RowsAffected r)))"
    using sint_sum_list [of "map (\<lambda>r. fst (RowsAffected r)) results"]
    by (simp add: comp_def)
  moreover have "- (2 ^ 63) \<le> (\<Sum>r\<leftarrow>results. sint (fst (RowsAffected r))) \<and>
      (\<Sum>r\<leftarrow>results. sint (fst (RowsAffected r))) < 2 ^ 63 \<longrightarrow>
        sint (sum_list (map (\<lambda>r. fst (RowsAffected r)) results)) =
        (\<Sum>r\<leftarrow>results. sint (fst (RowsAffected r)))"
    using sint_sum_list_exact [of "map (\<lambda>r. fst (RowsAffected r)) results"]
    by (simp add: comp_def)
  moreover have "slice_to convertedQuery 6 = Some (take 6 convertedQuery) \<and>
      ToLower (take 6 convertedQuery) \<noteq> ''select''"
    using assms(2,3) by (rule not_select_slice)
  ultimately show ?thesis
    using assms(1,4) by (simp add: QueryBulk_def deferClose_def formatResultSet_def)
qed

text \<open>The theorem at two mappings and at no mapping, for an insert statement.\<close>

theorem QueryBulk_summary_witness:
  "QueryBulk sampleBackend \<lparr>txValue = None\<rparr> ''insert into sample(name) values (?name)''
     [[''name'' \<mapsto> Val ()], [''name'' \<mapsto> Int64 5]] [] =
     (Success [Map.empty(''affected_rows'' \<mapsto> Int64 2, ''last_insert_id'' \<mapsto> Int64 2)],
      [Prepare None ''insert into sample(name) values (?)'',
       StmtExec 0 [Val ()], StmtExec 0 [Int64 5], StmtClose 0]) \<and>
   QueryBulk sampleBackend \<lparr>txValue = None\<rparr> ''insert into sample(name) values (?name)'' [] [] =
     (Success [Map.empty(''affected_rows'' \<mapsto> Int64 0, ''last_insert_id'' \<mapsto> Int64 0)],
      [Prepare None ''insert into sample(name) values (?)'', StmtClose 0])"
proof -
  let ?q = "''insert into sample(name) values (?name)''"
  let ?cq = "''insert into sample(name) values (?)''"
  let ?r1 = "\<lparr>LastInsertId = (1, None), RowsAffected = (1, None)\<rparr>"
  let ?r2 = "\<lparr>LastInsertId = (2, None), RowsAffected = (1, None)\<rparr>"
  have c: "convertQuery ?q = (?cq, [''name''])" by code_simp
  have s: "6 \<le> length ?cq" by simp
  have l: "\<not> beginsWithSelect ?cq" by code_simp
  have p: "prepareStatement sampleBackend \<lparr>txValue = None\<rparr> ?cq [] = (Inr 0, [Prepare None ?cq])"
    by (simp add: prepareStatement_def pool_Prepare_def sampleBackend_def)
  have b2: "map (\<lambda>pms. reorderParameters pms [''name''])
              [[''name'' \<mapsto> Val ()], [''name'' \<mapsto> Int64 5]] =
            map Inr [[Val ()], [Int64 5 :: unit iface]]"
    by (simp add: reorderParameters_def)
  have b0: "map (\<lambda>pms. reorderParameters pms [''name'']) [] = map Inr ([] :: unit iface list list)"
    by simp
  have e2: "execsSucceed sampleBackend 0 [[Val ()], [Int64 5]] [?r1, ?r2] [Prepare None ?cq]"
    by (simp add: sampleBackend_def)
  have e0: "execsSucceed sampleBackend 0 [] [] [Prepare None ?cq]"
    by simp
  from QueryBulk_summary [OF c s l p b2 e2] QueryBulk_summary [OF c s l p b0 e0]
  show ?thesis by simp
qed

text \<open>
  Claim C8 as stated (a non-read statement, every bind and execution succeeding) fails in
  three ways. With no mapping at all, the statement \<^verbatim>\<open>do 1\<close> makes \<open>QueryBulk\<close> panic,
  and an insert into a table the backend does not have makes it fail when the statement
  is prepared: neither returns the row of zeros. And two executions that each report
  \<open>2 ^ 62\<close> affected rows give an \<^verbatim>\<open>affected_rows\<close> that reads \<open>- (2 ^ 63)\<close>, not the sum
  \<open>2 ^ 63\<close> of the counts.
\<close>

theorem QueryBulk_summary_counterexample:
  "QueryBulk sampleBackend \<lparr>txValue = None\<rparr> ''do 1'' [] [] = (Panic, []) \<and>
   QueryBulk missingTableBackend \<lparr>txValue = None\<rparr> ''insert into missing(name) values (?name)'' [] [] =
     (Failure (DriverError ''Error 1146''), [Prepare None ''insert into missing(name) values (?)'']) \<and>
   QueryBulk hugeBackend \<lparr>txValue = None\<rparr> ''update sample set name = ?name''
     [[''name'' \<mapsto> Val ()], [''name'' \<mapsto> Val ()]] [] =
     (Success [Map.empty(''affected_rows'' \<mapsto> Int64 (2 ^ 62 + 2 ^ 62), ''last_insert_id'' \<mapsto> Int64 0)],
      [Prepare None ''update sample set name = ?'', StmtExec 0 [Val ()], StmtExec 0 [Val ()],
       StmtClose 0]) \<and>
   sint (2 ^ 62 + 2 ^ 62 :: int64) = - (2 ^ 63) \<and>
   sint (2 ^ 62 :: int64) + sint (2 ^ 62 :: int64) = 2 ^ 63"
proof -
  have c1: "convertQuery ''do 1'' = (''do 1'', [])" by code_simp
  have c2: "convertQuery ''insert into missing(name) values (?name)'' =
    (''insert into missing(name) values (?)'', [''name''])" by code_simp
  have c3: "convertQuery ''update sample set name = ?name'' =
    (''update sample set name = ?'', [''name''])" by code_simp
  have 1: "QueryBulk sampleBackend \<lparr>txValue = None\<rparr> ''do 1'' [] [] = (Panic, [])"
    by (simp add: QueryBulk_def c1 slice_to_def)
  have 2: "QueryBulk missingTableBackend \<lparr>txValue = None\<rparr>
      ''insert into missing(name) values (?name)'' [] [] =
     (Failure (DriverError ''Error 1146''), [Prepare None ''insert into missing(name) values (?)''])"
    by (simp add: QueryBulk_def c2 slice_to_def ToLower_def lowerByte_def prepareStatement_def
        pool_Prepare_def missingTableBackend_def)
  have 3: "QueryBulk hugeBackend \<lparr>txValue = None\<rparr> ''update sample set name = ?name''
     [[''name'' \<mapsto> Val ()], [''name'' \<mapsto> Val ()]] [] =
     (Success [Map.empty(''affected_rows'' \<mapsto> Int64 (2 ^ 62 + 2 ^ 62), ''last_insert_id'' \<mapsto> Int64 0)],
      [Prepare None ''update sample set name = ?'', StmtExec 0 [Val ()], StmtExec 0 [Val ()],
       StmtClose 0])"
    by (simp add: QueryBulk_def c3 slice_to_def ToLower_def lowerByte_def prepareStatement_def
        pool_Prepare_def hugeBackend_def sampleBackend_def reorderParameters_def stmt_Exec_def
        deferClose_def formatResultSet_def)
  have 4: "sint (2 ^ 62 + 2 ^ 62 :: int64) = - (2 ^ 63)" by simp
  have 5: "sint (2 ^ 62 :: int64) + sint (2 ^ 62 :: int64) = 2 ^ 63" by simp
  from 1 2 3 4 5 show ?thesis by blast
qed

section \<open>WrapInTx\<close>

lemma txCalls_append: "txCalls (w @ w') = txCalls w @ txCalls w'"
  by (simp add: txCalls_def)

lemma txCalls_finalize: "txCalls (finalize tx r) = finalize tx r"
  by (cases r) (simp_all add: txCalls_def)

lemma WrapInTx_participant:
  assumes "txValue ctx = Some tx"
  shows "WrapInTx B ctx fn w = (fst (fn ctx w), snd (fn ctx w) @ finalize tx (fst (fn ctx w)))"
proof -
  obtain r w2 where f: "fn ctx w = (r, w2)" by (cases "fn ctx w")
  with assms show ?thesis
    by (cases r) (simp_all add: WrapInTx_def attachTx_def tx_Rollback_def tx_Commit_def)
qed

lemma WrapInTx_owner:
  assumes "txValue ctx = None" and "beginResult B w = Inr tx"
  shows "WrapInTx B ctx fn w =
     (fst (fn (ctx\<lparr>txValue := Some tx\<rparr>) (w @ [PoolBegin])),
      snd (fn (ctx\<lparr>txValue := Some tx\<rparr>) (w @ [PoolBegin])) @
        finalize tx (fst (fn (ctx\<lparr>txValue := Some tx\<rparr>) (w @ [PoolBegin]))))"
proof -
  obtain r w2 where f: "fn (ctx\<lparr>txValue := Some tx\<rparr>) (w @ [PoolBegin]) = (r, w2)"
    by (cases "fn (ctx\<lparr>txValue := Some tx\<rparr>) (w @ [PoolBegin])")
  with assms show ?thesis
    by (cases r)
      (simp_all add: WrapInTx_def attachTx_def pool_Begin_def tx_Rollback_def tx_Commit_def)
qed

lemma Query_quiet: "quiet (Query B ctx query params)"
  unfolding quiet_def
proof
  fix w
  show "txCalls (snd (Query B ctx query params w)) = txCalls w"
    by (cases "txValue ctx")
      (auto simp: Query_def prepareStatement_def tx_Prepare_def pool_Prepare_def deferClose_def
        stmt_Query_def stmt_Exec_def prepareDataSet_def txCalls_def
        split: prod.splits sum.splits option.splits)
qed

text \<open>
  Claim C10. When the context holds no transaction and \<^verbatim>\<open>pool.Begin()\<close> fails,
  \<open>WrapInTx\<close> returns that error. The result is the same for every unit of work
  \<open>fn\<close>, which is never called, and the only call made is the failed begin: no commit
  and no rollback.
\<close>

theorem WrapInTx_begin_fails:
  assumes "txValue ctx = None" and "beginResult B w = Inl err"
  shows "WrapInTx B ctx fn w = (Failure err, w @ [PoolBegin])"
  using assms by (simp add: WrapInTx_def attachTx_def pool_Begin_def)

text \<open>The theorem on the backend whose pool cannot begin a transaction.\<close>

theorem WrapInTx_begin_fails_witness:
  "txValue \<lparr>txValue = None\<rparr> = None \<and>
   beginResult downBackend [] = Inl (DriverError ''connection refused'') \<and>
   WrapInTx downBackend \<lparr>txValue = None\<rparr>
     (\<lambda>c. Query downBackend c ''insert into sample(name) values (?name)'' [''name'' \<mapsto> Val ()]) [] =
     (Failure (DriverError ''connection refused''), [PoolBegin])"
proof -
  have a: "txValue \<lparr>txValue = None\<rparr> = None" by simp
  have b: "beginResult downBackend [] = Inl (DriverError ''connection refused'')"
    by (simp add: downBackend_def)
  from WrapInTx_begin_fails [OF a b] a b show ?thesis by simp
qed

text \<open>
  Claim C1, as the code has it. Let \<open>WrapInTx\<close> be called with a context that holds no
  transaction and a unit of work that calls \<open>WrapInTx\<close> again with the context handed to
  it, and let the begin succeed; the statements of the two units make no transaction
  call themselves. Then exactly one transaction is begun, by the outer frame; the inner
  frame finds the handle in its context and begins none. Each of the two frames whose
  function returns then makes its own call on that one handle, rollback after a failure
  and commit after a success: first the inner frame, then the outer one. \<open>WrapInTx\<close> does
  not tell an owner from a participant.
\<close>

theorem WrapInTx_nested:
  assumes "txValue ctx = None" and "beginResult B w = Inr tx"
    and "\<And>c. quiet (before c)"
    and "\<And>c. quiet (f2 c)"
    and "\<And>c x r. quiet (after x r c)"
  shows "txCalls (snd (WrapInTx B ctx (nested B before f2 after) w)) =
     txCalls w @ [PoolBegin] @
       finalize tx (fst (f2 (ctx\<lparr>txValue := Some tx\<rparr>)
                          (snd (before (ctx\<lparr>txValue := Some tx\<rparr>) (w @ [PoolBegin]))))) @
       finalize tx (fst (WrapInTx B ctx (nested B before f2 after) w))"
proof -
  let ?c = "ctx\<lparr>txValue := Some tx\<rparr>"
  let ?w0 = "w @ [PoolBegin]"
  let ?x = "fst (before ?c ?w0)"
  let ?w1 = "snd (before ?c ?w0)"
  let ?r2 = "fst (f2 ?c ?w1)"
  let ?w2 = "snd (f2 ?c ?w1) @ finalize tx ?r2"
  let ?n = "nested B before f2 after ?c ?w0"
  have c: "txValue ?c = Some tx" by simp
  have inner: "WrapInTx B ?c f2 ?w1 = (?r2, ?w2)"
    by (rule WrapInTx_participant [OF c])
  have outer: "WrapInTx B ctx (nested B before f2 after) w = (fst ?n, snd ?n @ finalize tx (fst ?n))"
    by (rule WrapInTx_owner [OF assms(1,2)])
  have "txCalls (snd ?n) = txCalls ?w2"
  proof (cases ?r2)
    case Panic
    then show ?thesis by (simp add: nested_def case_prod_beta inner)
  next
    case (Failure err)
    then have "?n = after ?x ?r2 ?c ?w2"
      by (simp add: nested_def case_prod_beta inner)
    then show ?thesis using assms(5) [of ?x ?r2 ?c] by (simp add: quiet_def)
  next
    case (Success res)
    then have "?n = after ?x ?r2 ?c ?w2"
      by (simp add: nested_def case_prod_beta inner)
    then show ?thesis using assms(5) [of ?x ?r2 ?c] by (simp add: quiet_def)
  qed
  also have "\<dots> = txCalls (snd (f2 ?c ?w1)) @ finalize tx ?r2"
    by (simp add: txCalls_append txCalls_finalize)
  also have "txCalls (snd (f2 ?c ?w1)) = txCalls ?w1"
    using assms(4) [of ?c] by (simp add: quiet_def)
  also have "txCalls ?w1 = txCalls ?w0"
    using assms(3) [of ?c] by (simp add: quiet_def)
  also have "txCalls ?w0 = txCalls w @ [PoolBegin]"
    by (simp add: txCalls_def)
  finally have "txCalls (snd ?n) = (txCalls w @ [PoolBegin]) @ finalize tx ?r2" .
  then show ?thesis
    by (simp add: outer txCalls_append txCalls_finalize)
qed

text \<open>
  The theorem at the nested pair of the repository's test of a failing inner operation:
  the outer unit inserts a row, the inner statement fails, the outer unit returns the
  result of its insert. The inner frame rolls back and the outer frame commits.
\<close>

theorem WrapInTx_nested_witness:
  "txValue \<lparr>txValue = None\<rparr> = None \<and> beginResult sampleBackend [] = Inr 0 \<and>
   txCalls (snd (WrapInTx sampleBackend \<lparr>txValue = None\<rparr>
     (nested sampleBackend
        (\<lambda>ctx. Query sampleBackend ctx ''insert into sample(name) values (?name)'' [''name'' \<mapsto> Val ()])
        (\<lambda>ctx. Query sampleBackend ctx ''not sql'' Map.empty)
        (\<lambda>r1 r2 ctx w. (r1, w))) [])) =
   [PoolBegin, TxRollback 0, TxCommit 0]"
proof -
  let ?before = "\<lambda>ctx. Query sampleBackend ctx ''insert into sample(name) values (?name)''
    [''name'' \<mapsto> Val ()]"
  let ?f2 = "\<lambda>ctx. Query sampleBackend ctx ''not sql'' Map.empty"
  let ?after = "\<lambda>(r1 :: unit row list outcome) (r2 :: unit row list outcome) (ctx :: context)
    (w :: unit world). (r1, w)"
  have a: "txValue \<lparr>txValue = None\<rparr> = None" by simp
  have b: "beginResult sampleBackend [] = Inr 0" by (simp add: sampleBackend_def)
  have q1: "\<And>c. quiet (?before c)" by (rule Query_quiet)
  have q2: "\<And>c. quiet (?f2 c)" by (rule Query_quiet)
  have q3: "\<And>c x r. quiet (?after x r c)" by (simp add: quiet_def)
  have c1: "convertQuery ''insert into sample(name) values (?name)'' =
    (''insert into sample(name) values (?)'', [''name''])" by code_simp
  have c2: "convertQuery ''not sql'' = (''not sql'', [])" by code_simp
  have pre: "?before \<lparr>txValue = Some 0\<rparr> [PoolBegin] =
    (Success (formatResultSet 1 1),
     [PoolBegin, Prepare (Some 0) ''insert into sample(name) values (?)'',
      StmtExec 1 [Val ()], StmtClose 1])"
    by (simp add: Query_def c1 reorderParameters_def prepareStatement_def tx_Prepare_def
        sampleBackend_def deferClose_def slice_to_def ToLower_def lowerByte_def stmt_Exec_def
        prepareResultSet_def returned_def)
  have inner: "fst (?f2 \<lparr>txValue = Some 0\<rparr> (snd (?before \<lparr>txValue = Some 0\<rparr> [PoolBegin]))) =
    Failure (DriverError ''Error 1064'')"
    unfolding pre
    by (simp add: Query_def c2 reorderParameters_def prepareStatement_def tx_Prepare_def
        sampleBackend_def)
  have whole: "fst (WrapInTx sampleBackend \<lparr>txValue = None\<rparr> (nested sampleBackend ?before ?f2 ?after) []) =
    Success (formatResultSet 1 1)"
    using pre inner
    by (simp add: WrapInTx_owner [OF a b] WrapInTx_participant nested_def case_prod_beta)
  from WrapInTx_nested [of "\<lparr>txValue = None\<rparr>" sampleBackend "[]" 0 ?before ?f2 ?after,
      OF a b q1 q2 q3]
  show ?thesis
    using a b by (simp add: inner whole txCalls_def)
qed

text \<open>
  Claim C1 as stated (one commit or rollback, by the owner only) fails on a nested pair
  whose inner unit inserts a row: two commits are issued on the one handle, and the
  participant frame, run by itself with the handle in its context, issues a commit.
\<close>

theorem nested_commits_counterexample:
  "txCalls (snd (WrapInTx sampleBackend \<lparr>txValue = None\<rparr>
      (\<lambda>ctx. WrapInTx sampleBackend ctx
         (\<lambda>ctx. Query sampleBackend ctx ''insert into sample(name) values (?name)''
            [''name'' \<mapsto> Val ()])) [])) =
   [PoolBegin, TxCommit 0, TxCommit 0] \<and>
   txCalls (snd (WrapInTx sampleBackend \<lparr>txValue = Some 0\<rparr>
      (\<lambda>ctx. Query sampleBackend ctx ''insert into sample(name) values (?name)''
         [''name'' \<mapsto> Val ()]) [PoolBegin])) =
   [PoolBegin, TxCommit 0]"
  by code_simp

end
